theory Spec2Isabelle
  imports Complex_Main "HOL-Library.Log_Nat" "HOL-Library.Stream"
begin

section \<open>Python values\<close>

text \<open>
  A Python \<^verbatim>\<open>str\<close> is a sequence of Unicode code points. A character is modelled by its
  code point (a natural number) and a string by the list of its code points, so that the
  model is not limited to 8-bit characters. \<open>str\<close> turns an ASCII literal into such a list.
\<close>

type_synonym pychar = nat
type_synonym pystr = "pychar list"

definition str :: "string \<Rightarrow> pystr" where
  "str cs = map of_char cs"

text \<open>The exceptions that the modelled operations can raise.\<close>

datatype py_error =
  ZeroDivisionError | OverflowError | ValueError | IndexError | KeyError | OSError |
  UnicodeEncodeError | EOFError

text \<open>
  \<^verbatim>\<open>except ValueError\<close> also catches the subclasses of \<^verbatim>\<open>ValueError\<close>, of which
  \<^verbatim>\<open>UnicodeEncodeError\<close> is one.
\<close>

definition is_ValueError :: "py_error \<Rightarrow> bool" where
  "is_ValueError e \<longleftrightarrow> e = ValueError \<or> e = UnicodeEncodeError"

text \<open>Sequencing of computations that may raise: the first error wins.\<close>

definition bind_err :: "'e + 'a \<Rightarrow> ('a \<Rightarrow> 'e + 'b) \<Rightarrow> 'e + 'b" where
  "bind_err m f = (case m of Inl e \<Rightarrow> Inl e | Inr v \<Rightarrow> f v)"

text \<open>
  Numbers: a Python \<^verbatim>\<open>int\<close> is unbounded; a \<^verbatim>\<open>float\<close> is a binary64 value, modelled
  by the rational number it denotes.
\<close>

datatype pynum = PyInt int | PyFloat rat

fun num_val :: "pynum \<Rightarrow> rat" where
  "num_val (PyInt i) = of_int i"
| "num_val (PyFloat x) = x"

subsection \<open>True division of integers\<close>

text \<open>
  \<^verbatim>\<open>a / b\<close> on two Python integers is the exact quotient rounded once to binary64
  (round to nearest, ties to even; 53-bit significand; least normal exponent \<open>-1022\<close>, below
  which the spacing of the subnormal numbers applies). It raises \<^verbatim>\<open>ZeroDivisionError\<close> for
  a zero divisor and \<^verbatim>\<open>OverflowError\<close> when the rounded quotient is not below \<open>2 ^ 1024\<close>.
\<close>

definition round_half_even :: "rat \<Rightarrow> int" where
  "round_half_even x =
     (let f = \<lfloor>x\<rfloor>; r = x - of_int f
      in if r < 1 / 2 then f else if 1 / 2 < r then f + 1 else if even f then f else f + 1)"

text \<open>\<open>ilog2 x\<close> is the binary exponent of \<open>x \<noteq> 0\<close>: the \<open>e\<close> with \<open>2 powi e \<le> \<bar>x\<bar> < 2 powi (e + 1)\<close>.\<close>

definition ilog2 :: "rat \<Rightarrow> int" where
  "ilog2 x =
     (let (n, d) = quotient_of \<bar>x\<bar>; k = bitlen n - bitlen d
      in if 2 powi k \<le> \<bar>x\<bar> then k else k - 1)"

definition round_binary64 :: "rat \<Rightarrow> rat" where
  "round_binary64 x =
     (if x = 0 then 0
      else let u = 2 powi (max (ilog2 x) (- 1022) - 52)
           in of_int (round_half_even (x / u)) * u)"

definition py_truediv :: "int \<Rightarrow> int \<Rightarrow> py_error + rat" where
  "py_truediv a b =
     (if b = 0 then Inl ZeroDivisionError
      else let r = round_binary64 (of_int a / of_int b)
           in if 2 ^ 1024 \<le> \<bar>r\<bar> then Inl OverflowError else Inr r)"

subsection \<open>Dictionaries\<close>

text \<open>
  A dictionary is a finite map. \<open>getitem\<close> is \<^verbatim>\<open>d[k]\<close>, which raises \<^verbatim>\<open>KeyError\<close> for a
  missing key; \<open>dict_comp f ks m\<close> is the comprehension \<^verbatim>\<open>{k: f(k) for k in ks}\<close> run from the
  dictionary \<open>m\<close> built so far: a later key overrides an earlier one, and the first value
  that raises ends the comprehension.
\<close>

definition getitem :: "('k \<rightharpoonup> 'v) \<Rightarrow> 'k \<Rightarrow> py_error + 'v" where
  "getitem d k = (case d k of None \<Rightarrow> Inl KeyError | Some v \<Rightarrow> Inr v)"

fun dict_comp :: "('k \<Rightarrow> py_error + 'v) \<Rightarrow> 'k list \<Rightarrow> ('k \<rightharpoonup> 'v) \<Rightarrow> py_error + ('k \<rightharpoonup> 'v)" where
  "dict_comp f [] m = Inr m"
| "dict_comp f (k # ks) m = (case f k of Inl e \<Rightarrow> Inl e | Inr v \<Rightarrow> dict_comp f ks (m(k \<mapsto> v)))"

section \<open>Statistics Calculator\<close>

definition ACGT :: pystr where
  "ACGT = str ''ACGT''"

text \<open>
  \<^verbatim>\<open>
  def calculate_stats(seq):
      dna_only = ''.join([base for base in seq if base in 'ACGT'])
      total = len(dna_only)
      counts = {base: dna_only.count(base) for base in 'ACGT'}
      percentages = {base: 100 * counts[base] / total if total else 0 for base in 'ACGT'}
      cg = counts['C'] + counts['G']
      cg_percent = 100 * cg / total if total else 0
      return percentages, cg_percent
  \<close>
\<close>

definition calculate_stats :: "pystr \<Rightarrow> py_error + ((pychar \<rightharpoonup> pynum) \<times> pynum)" where
  "calculate_stats seq =
     (let dna_only = filter (\<lambda>base. base \<in> set ACGT) seq;
          total = int (length dna_only)
      in bind_err (dict_comp (\<lambda>base. Inr (int (count_list dna_only base))) ACGT Map.empty) (\<lambda>counts.
         bind_err (dict_comp (\<lambda>base.
             if total \<noteq> 0
             then bind_err (getitem counts base) (\<lambda>c.
                  bind_err (py_truediv (100 * c) total) (\<lambda>q. Inr (PyFloat q)))
             else Inr (PyInt 0)) ACGT Map.empty) (\<lambda>percentages.
         bind_err (getitem counts (of_char CHR ''C'')) (\<lambda>c.
         bind_err (getitem counts (of_char CHR ''G'')) (\<lambda>g.
         let cg = c + g
         in bind_err (if total \<noteq> 0
                      then bind_err (py_truediv (100 * cg) total) (\<lambda>q. Inr (PyFloat q))
                      else Inr (PyInt 0)) (\<lambda>cg_percent.
            Inr (percentages, cg_percent)))))))"

section \<open>The random source\<close>

text \<open>
  The module \<^verbatim>\<open>random\<close> is modelled by the stream of the raw numbers the generator
  will deliver. An operation that needs an index below \<open>n\<close> consumes the next raw number
  and reduces it modulo \<open>n\<close>; every stream is admitted, so every index below \<open>n\<close> can
  come out and no other value can. Probabilities are not part of the model.

  \<^verbatim>\<open>random.choices(population, k=k)\<close> draws \<open>k\<close> elements with replacement (none when
  \<open>k\<close> is not positive). The count is handed to a C loop counter: the call raises
  \<^verbatim>\<open>OverflowError\<close> when \<open>k\<close> does not fit the signed 64-bit size type, before anything is
  drawn. A draw from an empty population raises \<^verbatim>\<open>IndexError\<close>. Memory is not bounded in
  the model. \<^verbatim>\<open>random.randint(a, b)\<close> returns an integer from \<open>a\<close> to \<open>b\<close>, both
  included, and raises \<^verbatim>\<open>ValueError\<close> when that range is empty.
\<close>

type_synonym rng = "nat stream"

fun draw_choices :: "'a list \<Rightarrow> nat \<Rightarrow> rng \<Rightarrow> py_error + ('a list \<times> rng)" where
  "draw_choices population 0 g = Inr ([], g)"
| "draw_choices population (Suc k) g =
     (if population = [] then Inl IndexError
      else bind_err (draw_choices population k (stl g)) (\<lambda>(xs, g').
             Inr (population ! (shd g mod length population) # xs, g')))"

definition random_choices :: "'a list \<Rightarrow> int \<Rightarrow> rng \<Rightarrow> py_error + ('a list \<times> rng)" where
  "random_choices population k g =
     (if k < - (2 ^ 63) \<or> 2 ^ 63 \<le> k then Inl OverflowError
      else draw_choices population (nat k) g)"

definition randint :: "int \<Rightarrow> int \<Rightarrow> rng \<Rightarrow> py_error + (int \<times> rng)" where
  "randint a b g =
     (if b < a then Inl ValueError
      else Inr (a + int (shd g mod nat (b - a + 1)), stl g))"

section \<open>Sequence Generator\<close>

text \<open>
  \<^verbatim>\<open>
  def generate_dna_sequence(length):
      return ''.join(random.choices('ACGT', k=length))
  \<close>
\<close>

definition generate_dna_sequence :: "int \<Rightarrow> rng \<Rightarrow> py_error + (pystr \<times> rng)" where
  "generate_dna_sequence len g = random_choices ACGT len g"

section \<open>Name Embedder\<close>

text \<open>
  Slices \<^verbatim>\<open>seq[:pos]\<close> and \<^verbatim>\<open>seq[pos:]\<close>: a negative bound counts from the end, and
  bounds are clipped to the string.
\<close>

definition slice_bound :: "'a list \<Rightarrow> int \<Rightarrow> nat" where
  "slice_bound seq pos = nat (if pos < 0 then max 0 (int (length seq) + pos) else pos)"

definition slice_to :: "'a list \<Rightarrow> int \<Rightarrow> 'a list" where
  "slice_to seq pos = take (slice_bound seq pos) seq"

definition slice_from :: "'a list \<Rightarrow> int \<Rightarrow> 'a list" where
  "slice_from seq pos = drop (slice_bound seq pos) seq"

text \<open>
  \<^verbatim>\<open>
  def insert_name(seq, name):
      pos = random.randint(0, len(seq))
      return seq[:pos] + name + seq[pos:]
  \<close>
\<close>

definition insert_name :: "pystr \<Rightarrow> pystr \<Rightarrow> rng \<Rightarrow> py_error + (pystr \<times> rng)" where
  "insert_name seq name g =
     bind_err (randint 0 (int (length seq)) g) (\<lambda>(pos, g').
       Inr (slice_to seq pos @ name @ slice_from seq pos, g'))"

section \<open>The environment of a run\<close>

text \<open>
  The bar chart that \<^verbatim>\<open>plot_stats\<close> hands to the plotting library.
\<close>

record chart =
  bars :: "(pychar \<times> pynum) list"
  colors :: "pystr list"
  ylim :: "int \<times> int"
  xlabel :: pystr
  ylabel :: pystr
  title :: pystr

text \<open>
  The state a run works on: what the console will deliver to the successive reads (a
  line, or \<open>None\<close> for end-of-file; the console of an interactive user may go on for
  ever), the text written to the console so far (the console accepts every text), the
  random source, the text files by path, the paths that cannot be opened for writing
  (each with the error that \<^verbatim>\<open>open\<close> raises for it), the code points that the encoding of
  text files rejects, and the charts shown so far. Signals that interrupt a run are not
  part of the model.
\<close>

record world =
  stdin :: "pystr option stream"
  stdout :: pystr
  rng_state :: rng
  files :: "pystr \<rightharpoonup> pystr"
  open_error :: "pystr \<rightharpoonup> py_error"
  unencodable :: "pychar set"
  charts :: "chart list"

text \<open>
  An operation on the state either returns or raises; an error is paired with the state
  in which it was raised. \<open>raise_in\<close> places the error of a computation without state.
\<close>

definition raise_in :: "world \<Rightarrow> py_error + 'a \<Rightarrow> (py_error \<times> world) + 'a" where
  "raise_in w r = (case r of Inl e \<Rightarrow> Inl (e, w) | Inr v \<Rightarrow> Inr v)"

definition newline :: pychar where
  "newline = 10"

text \<open>
  \<^verbatim>\<open>input(prompt)\<close> writes the prompt and reads from the console: it returns the next
  line, without its newline, and raises \<^verbatim>\<open>EOFError\<close> at end-of-file. \<open>consume\<close> is the
  state after the prompt and the read.
\<close>

definition consume :: "pystr \<Rightarrow> world \<Rightarrow> world" where
  "consume prompt w = w\<lparr>stdin := stl (stdin w), stdout := stdout w @ prompt\<rparr>"

definition py_input :: "pystr \<Rightarrow> world \<Rightarrow> (py_error \<times> world) + (pystr \<times> world)" where
  "py_input prompt w =
     (case shd (stdin w) of
        None \<Rightarrow> Inl (EOFError, consume prompt w)
      | Some line \<Rightarrow> Inr (line, consume prompt w))"

text \<open>\<^verbatim>\<open>print(text)\<close> writes the text and a newline.\<close>

definition py_print :: "pystr \<Rightarrow> world \<Rightarrow> world" where
  "py_print text w = w\<lparr>stdout := stdout w @ text @ [newline]\<rparr>"

text \<open>
  \<^verbatim>\<open>open(path, 'w')\<close> creates the file or empties it. It raises \<^verbatim>\<open>ValueError\<close> for a path
  with a NUL character in it, and the error that the environment has for a path that
  cannot be opened for writing (an \<^verbatim>\<open>OSError\<close> as a rule).
  \<^verbatim>\<open>f.write(text)\<close> appends to the open file; it raises \<^verbatim>\<open>UnicodeEncodeError\<close>, and writes
  nothing of the text, when the file's encoding rejects a character of the text. What was
  written before stays in the file, which the \<^verbatim>\<open>with\<close> statement closes on every exit.
\<close>

definition open_w :: "pystr \<Rightarrow> world \<Rightarrow> (py_error \<times> world) + world" where
  "open_w path w =
     (if 0 \<in> set path then Inl (ValueError, w)
      else case open_error w path of
             Some e \<Rightarrow> Inl (e, w)
           | None \<Rightarrow> Inr (w\<lparr>files := (files w)(path \<mapsto> [])\<rparr>))"

definition encodable :: "world \<Rightarrow> pystr \<Rightarrow> bool" where
  "encodable w text \<longleftrightarrow> set text \<inter> unencodable w = {}"

definition file_write :: "pystr \<Rightarrow> pystr \<Rightarrow> world \<Rightarrow> (py_error \<times> world) + world" where
  "file_write path text w =
     (if encodable w text
      then Inr (w\<lparr>files := (files w)(path \<mapsto>
                  (case files w path of None \<Rightarrow> text | Some old \<Rightarrow> old @ text))\<rparr>)
      else Inl (UnicodeEncodeError, w))"

section \<open>Record Writer\<close>

text \<open>
  \<^verbatim>\<open>
  def save_fasta(file_name, seq_id, description, seq_with_name):
      with open(file_name, 'w') as f:
          f.write(f">{seq_id} {description}\n")
          f.write(seq_with_name + '\n')
  \<close>
\<close>

definition save_fasta ::
    "pystr \<Rightarrow> pystr \<Rightarrow> pystr \<Rightarrow> pystr \<Rightarrow> world \<Rightarrow> (py_error \<times> world) + world" where
  "save_fasta file_name seq_id description seq_with_name w =
     bind_err (open_w file_name w) (\<lambda>w1.
     bind_err (file_write file_name
                 (str ''>'' @ seq_id @ str '' '' @ description @ [newline]) w1) (\<lambda>w2.
     file_write file_name (seq_with_name @ [newline]) w2))"

section \<open>Chart Renderer\<close>

definition label_x :: pystr where
  "label_x = str ''Nukleotyd''"

definition label_y :: pystr where
  "label_y = str ''Procent [%]''"

definition chart_title :: pystr where
  "chart_title = str ''Zawarto'' @ [347, 263] @ str '' nukleotyd'' @ [243] @ str ''w w sekwencji DNA''"

text \<open>The list comprehension \<^verbatim>\<open>[f(x) for x in xs]\<close>, ended by the first element that raises.\<close>

fun list_comp :: "('a \<Rightarrow> py_error + 'b) \<Rightarrow> 'a list \<Rightarrow> py_error + 'b list" where
  "list_comp f [] = Inr []"
| "list_comp f (x # xs) =
     bind_err (f x) (\<lambda>y. bind_err (list_comp f xs) (\<lambda>ys. Inr (y # ys)))"

text \<open>
  \<^verbatim>\<open>
  def plot_stats(percentages):
      bases = ['A', 'C', 'G', 'T']
      values = [percentages[base] for base in bases]
      plt.bar(bases, values, color=['dodgerblue', 'orange', 'green', 'red'])
      plt.ylim(0, 100)
      plt.xlabel('Nukleotyd')
      plt.ylabel('Procent [%]')
      plt.title('Zawartosc nukleotydow w sekwencji DNA')   (with Polish diacritics)
      plt.show()
  \<close>
\<close>

definition plot_stats :: "(pychar \<rightharpoonup> pynum) \<Rightarrow> world \<Rightarrow> (py_error \<times> world) + world" where
  "plot_stats percentages w =
     (let bases = str ''ACGT''
      in bind_err (raise_in w (list_comp (\<lambda>base. getitem percentages base) bases)) (\<lambda>values.
           Inr (w\<lparr>charts := charts w @
             [\<lparr>bars = zip bases values,
               colors = [str ''dodgerblue'', str ''orange'', str ''green'', str ''red''],
               ylim = (0, 100),
               xlabel = label_x, ylabel = label_y, title = chart_title\<rparr>]\<rparr>)))"

section \<open>Interactive Driver\<close>

text \<open>
  \<^verbatim>\<open>
  def generate_random_id(length=8):
      return ''.join(random.choices('abcdefghijklmnopqrstuvwxyz0123456789', k=length))
  \<close>
\<close>

definition id_alphabet :: pystr where
  "id_alphabet = str ''abcdefghijklmnopqrstuvwxyz0123456789''"

definition generate_random_id :: "int \<Rightarrow> rng \<Rightarrow> py_error + (pystr \<times> rng)" where
  "generate_random_id len g = random_choices id_alphabet len g"

text \<open>The texts of the prompts and messages, as code points.\<close>

definition prompt_length :: pystr where
  "prompt_length = str ''Podaj d'' @ [322] @ str ''ugo'' @ [347, 263] @ str '' sekwencji: ''"

definition msg_not_positive :: pystr where
  "msg_not_positive = str ''D'' @ [322] @ str ''ugo'' @ [347, 263] @ str '' nie mo'' @ [380] @
     str ''e by'' @ [263] @ str '' ujemna ani zerowa. Spr'' @ [243] @ str ''buj ponownie.''"

definition msg_not_integer :: pystr where
  "msg_not_integer = str ''B'' @ [322, 261] @ str ''d: musisz poda'' @ [263] @ str '' liczb'' @
     [281] @ str '' ca'' @ [322] @ str ''kowit'' @ [261] @ str ''!''"

definition prompt_seq_id :: pystr where
  "prompt_seq_id = str ''Podaj ID sekwencji (mo'' @ [380] @ str ''esz zostawi'' @ [263] @
     str '' puste): ''"

definition msg_generated_id :: pystr where
  "msg_generated_id = str ''Wygenerowano losowy ID: ''"

definition prompt_description :: pystr where
  "prompt_description = str ''Podaj opis sekwencji: ''"

definition prompt_name :: pystr where
  "prompt_name = str ''Podaj imi'' @ [281] @ str '': ''"

definition msg_saved :: pystr where
  "msg_saved = [newline] @ str ''Sekwencja zosta'' @ [322] @ str ''a zapisana do pliku ''"

definition msg_statistics :: pystr where
  "msg_statistics = str ''Statystyki sekwencji:''"

text \<open>
  \<^verbatim>\<open>int(text)\<close> either yields an integer or raises \<^verbatim>\<open>ValueError\<close>. Which texts denote
  which integer is a matter of the language, not of this program: the parser is a
  parameter \<open>parse\<close>, with \<open>None\<close> for the texts that \<^verbatim>\<open>int\<close> rejects.
\<close>

definition py_int :: "(pystr \<Rightarrow> int option) \<Rightarrow> pystr \<Rightarrow> py_error + int" where
  "py_int parse text = (case parse text of None \<Rightarrow> Inl ValueError | Some n \<Rightarrow> Inr n)"

text \<open>
  \<^verbatim>\<open>
  def get_valid_length():
      while True:
          try:
              length = int(input("Podaj dlugosc sekwencji: "))
              if length < 1:
                  print("Dlugosc nie moze byc ujemna ani zerowa. Sprobuj ponownie.")
              else:
                  return length
          except ValueError:
              print("Blad: musisz podac liczbe calkowita!")
  \<close>
  (the texts carry Polish diacritics in the source). \<open>read_length\<close> is the first
  statement of the \<^verbatim>\<open>try\<close> block, \<^verbatim>\<open>int(input(...))\<close>: the \<^verbatim>\<open>EOFError\<close> of \<^verbatim>\<open>input\<close> and
  the \<^verbatim>\<open>ValueError\<close> of \<^verbatim>\<open>int\<close> both arise inside the block, and the handler takes the
  errors that are a \<^verbatim>\<open>ValueError\<close>; any other error leaves the function. The loop has no
  bound: the result is \<open>None\<close> when it never returns.
\<close>

definition read_length ::
    "(pystr \<Rightarrow> int option) \<Rightarrow> world \<Rightarrow> (py_error \<times> world) + (int \<times> world)" where
  "read_length parse w =
     bind_err (py_input prompt_length w) (\<lambda>(line, w1).
     bind_err (raise_in w1 (py_int parse line)) (\<lambda>len. Inr (len, w1)))"

partial_function (option) get_valid_length ::
    "(pystr \<Rightarrow> int option) \<Rightarrow> world \<Rightarrow> ((py_error \<times> world) + (int \<times> world)) option" where
  "get_valid_length parse w =
     (case read_length parse w of
        Inr (len, w1) \<Rightarrow>
          if len < 1 then get_valid_length parse (py_print msg_not_positive w1)
          else Some (Inr (len, w1))
      | Inl (e, w1) \<Rightarrow>
          if is_ValueError e then get_valid_length parse (py_print msg_not_integer w1)
          else Some (Inl (e, w1)))"

text \<open>
  \<^verbatim>\<open>str.strip()\<close> removes leading and trailing whitespace; \<open>isspace\<close> is the set of code
  points that Python treats as whitespace.
\<close>

definition isspace :: "pychar \<Rightarrow> bool" where
  "isspace c \<longleftrightarrow>
     (9 \<le> c \<and> c \<le> 13) \<or> (28 \<le> c \<and> c \<le> 32) \<or> c = 133 \<or> c = 160 \<or> c = 5760 \<or>
     (8192 \<le> c \<and> c \<le> 8202) \<or> c = 8232 \<or> c = 8233 \<or> c = 8239 \<or> c = 8287 \<or> c = 12288"

definition strip :: "pystr \<Rightarrow> pystr" where
  "strip s = rev (dropWhile isspace (rev (dropWhile isspace s)))"

text \<open>
  The identifier step of \<^verbatim>\<open>main\<close>:
  \<^verbatim>\<open>
      seq_id = input("Podaj ID sekwencji (mozesz zostawic puste): ")
      if not seq_id.strip():
          seq_id = generate_random_id()
          print(f"Wygenerowano losowy ID: {seq_id}")
  \<close>
\<close>

definition main_seq_id :: "world \<Rightarrow> (py_error \<times> world) + (pystr \<times> world)" where
  "main_seq_id w =
     bind_err (py_input prompt_seq_id w) (\<lambda>(seq_id, w1).
       if strip seq_id = []
       then bind_err (raise_in w1 (generate_random_id 8 (rng_state w1))) (\<lambda>(seq_id, g).
              Inr (seq_id, py_print (msg_generated_id @ seq_id) (w1\<lparr>rng_state := g\<rparr>)))
       else Inr (seq_id, w1))"

text \<open>
  The loop \<^verbatim>\<open>for base in 'ACGT': print(f"{base}: {percentages[base]:.1f}%")\<close>. The
  rendering of a number with one decimal place is the language's; it is the parameter
  \<open>fmt\<close>.
\<close>

fun print_percentages ::
    "(pynum \<Rightarrow> pystr) \<Rightarrow> (pychar \<rightharpoonup> pynum) \<Rightarrow> pystr \<Rightarrow> world \<Rightarrow>
      (py_error \<times> world) + world" where
  "print_percentages fmt percentages [] w = Inr w"
| "print_percentages fmt percentages (base # bases) w =
     bind_err (raise_in w (getitem percentages base)) (\<lambda>p.
       print_percentages fmt percentages bases
         (py_print ([base] @ str '': '' @ fmt p @ str ''%'') w))"

text \<open>
  The rest of \<^verbatim>\<open>main\<close>, from the validated length on:
  \<^verbatim>\<open>
      description = input("Podaj opis sekwencji: ")
      name = input("Podaj imie: ")
      dna_seq = generate_dna_sequence(length)
      seq_with_name = insert_name(dna_seq, name)
      file_name = f"{seq_id}.fasta"
      save_fasta(file_name, seq_id, description, seq_with_name)
      print(f"\nSekwencja zostala zapisana do pliku {file_name}")
      print("Statystyki sekwencji:")
      percentages, cg_percent = calculate_stats(seq_with_name)
      for base in 'ACGT':
          print(f"{base}: {percentages[base]:.1f}%")
      print(f"%CG: {cg_percent:.1f}")
      plot_stats(percentages)
  \<close>
\<close>

definition main_from_length ::
    "(pynum \<Rightarrow> pystr) \<Rightarrow> int \<Rightarrow> world \<Rightarrow> (py_error \<times> world) + world" where
  "main_from_length fmt len w1 =
     bind_err (main_seq_id w1) (\<lambda>(seq_id, w2).
     bind_err (py_input prompt_description w2) (\<lambda>(description, w3).
     bind_err (py_input prompt_name w3) (\<lambda>(name, w4).
     bind_err (raise_in w4 (generate_dna_sequence len (rng_state w4))) (\<lambda>(dna_seq, g1).
     bind_err (raise_in w4 (insert_name dna_seq name g1)) (\<lambda>(seq_with_name, g2).
     let w5 = w4\<lparr>rng_state := g2\<rparr>;
         file_name = seq_id @ str ''.fasta''
     in bind_err (save_fasta file_name seq_id description seq_with_name w5) (\<lambda>w6.
        let w7 = py_print (msg_saved @ file_name) w6;
            w8 = py_print msg_statistics w7
        in bind_err (raise_in w8 (calculate_stats seq_with_name)) (\<lambda>(percentages, cg_percent).
           bind_err (print_percentages fmt percentages (str ''ACGT'') w8) (\<lambda>w9.
           let w10 = py_print (str ''%CG: '' @ fmt cg_percent) w9
           in plot_stats percentages w10))))))))"

definition main ::
    "(pystr \<Rightarrow> int option) \<Rightarrow> (pynum \<Rightarrow> pystr) \<Rightarrow> world \<Rightarrow>
      ((py_error \<times> world) + world) option" where
  "main parse fmt w =
     (case get_valid_length parse w of
        None \<Rightarrow> None
      | Some (Inl e) \<Rightarrow> Some (Inl e)
      | Some (Inr (len, w1)) \<Rightarrow> Some (main_from_length fmt len w1))"

section \<open>Vocabulary of the properties\<close>

text \<open>The four bases as code points.\<close>

abbreviation base_A :: pychar where "base_A \<equiv> of_char CHR ''A''"
abbreviation base_C :: pychar where "base_C \<equiv> of_char CHR ''C''"
abbreviation base_G :: pychar where "base_G \<equiv> of_char CHR ''G''"
abbreviation base_T :: pychar where "base_T \<equiv> of_char CHR ''T''"

subsection \<open>The Statistics Calculator as specified\<close>

text \<open>
  The specification's wording, to be compared with \<open>calculate_stats\<close>: filter the input
  to its alphabet-only subset, let \<open>tot\<close> be its length, give each base the value
  \<^verbatim>\<open>100 * count / tot\<close>, or \<^verbatim>\<open>0\<close> if \<open>tot\<close> is zero, and the combined value
  \<^verbatim>\<open>100 * (count(C) + count(G)) / tot\<close>, or \<^verbatim>\<open>0\<close> if \<open>tot\<close> is zero. The division is the
  language's: the exact quotient rounded to binary64.
\<close>

definition alphabet_only :: "pystr \<Rightarrow> pystr" where
  "alphabet_only s = filter (\<lambda>c. c \<in> {base_A, base_C, base_G, base_T}) s"

definition percentage :: "nat \<Rightarrow> nat \<Rightarrow> pynum" where
  "percentage cnt tot =
     (if tot = 0 then PyInt 0 else PyFloat (round_binary64 (of_nat (100 * cnt) / of_nat tot)))"

definition calculate_stats_spec :: "pystr \<Rightarrow> (pychar \<rightharpoonup> pynum) \<times> pynum" where
  "calculate_stats_spec s =
     (let sub = alphabet_only s; tot = length sub
      in ([base_A \<mapsto> percentage (count_list sub base_A) tot,
           base_C \<mapsto> percentage (count_list sub base_C) tot,
           base_G \<mapsto> percentage (count_list sub base_G) tot,
           base_T \<mapsto> percentage (count_list sub base_T) tot],
          percentage (count_list sub base_C + count_list sub base_G) tot))"

subsection \<open>Lines of a text file\<close>






subsection \<open>Rounds of the validation loop\<close>

text \<open>
  A line is a valid length when it parses to an integer that is at least 1. What the
  console delivers to a read is an invalid line when it is a line (not end-of-file) that
  is not a valid length. \<open>reprompt\<close> is one unsuccessful round of \<open>get_valid_length\<close> on
  an invalid line: the prompt is written, the line is consumed and the corrective
  message is printed.
\<close>

definition valid_length :: "(pystr \<Rightarrow> int option) \<Rightarrow> pystr \<Rightarrow> bool" where
  "valid_length parse line = (case parse line of None \<Rightarrow> False | Some n \<Rightarrow> 1 \<le> n)"

definition invalid_line :: "(pystr \<Rightarrow> int option) \<Rightarrow> pystr option \<Rightarrow> bool" where
  "invalid_line parse delivered =
     (case delivered of None \<Rightarrow> False | Some line \<Rightarrow> \<not> valid_length parse line)"

definition reprompt :: "(pystr \<Rightarrow> int option) \<Rightarrow> world \<Rightarrow> world" where
  "reprompt parse w =
     (case shd (stdin w) of
        None \<Rightarrow> consume prompt_length w
      | Some line \<Rightarrow>
          py_print (if parse line = None then msg_not_integer else msg_not_positive)
            (consume prompt_length w))"

subsection \<open>Concrete inputs\<close>

text \<open>
  An environment and a parser for evaluating the functions at concrete inputs: a console
  that delivers empty lines, a random source that delivers zeros, no files, text files
  in UTF-8 (which rejects the surrogate code points \<open>55296\<close> to \<open>57343\<close>); and a parser of
  plain ASCII decimal numerals with an optional minus sign, one possible value of the
  parameter \<open>parse\<close>.
\<close>

definition sample_world :: world where
  "sample_world = \<lparr>stdin = sconst (Some []), stdout = [], rng_state = sconst 0,
     files = Map.empty, open_error = Map.empty, unencodable = {c. 55296 \<le> c \<and> c \<le> 57343},
     charts = []\<rparr>"



section \<open>Binary64 rounding\<close>

lemma bitlen_ge1: "0 < n \<Longrightarrow> 1 \<le> bitlen n"
  by (simp add: bitlen_alt_def)

lemma bitlen_powi:
  assumes "0 < n"
  shows "(2::rat) powi (bitlen n - 1) \<le> of_int n" and "of_int n < (2::rat) powi (bitlen n)"
proof -
  from assms have b: "1 \<le> bitlen n" by (rule bitlen_ge1)
  from bitlen_bounds [OF assms]
  have lo: "2 ^ nat (bitlen n - 1) \<le> n" and hi: "n < 2 ^ nat (bitlen n)" by simp_all
  from lo have "(of_int (2 ^ nat (bitlen n - 1)) :: rat) \<le> of_int n"
    by (simp only: of_int_le_iff)
  with b show "(2::rat) powi (bitlen n - 1) \<le> of_int n"
    by (simp add: power_int_nonneg_exp)
  from hi have "(of_int n :: rat) < of_int (2 ^ nat (bitlen n))"
    by (simp only: of_int_less_iff)
  with b show "of_int n < (2::rat) powi (bitlen n)"
    by (simp add: power_int_nonneg_exp)
qed

text \<open>\<open>ilog2\<close> is the binary exponent: the model rounds at the spacing of binary64.\<close>

lemma ilog2_bounds:
  assumes "x \<noteq> 0"
  shows "2 powi (ilog2 x) \<le> \<bar>x\<bar>" and "\<bar>x\<bar> < 2 powi (ilog2 x + 1)"
proof -
  obtain n d where q: "quotient_of \<bar>x\<bar> = (n, d)" by (cases "quotient_of \<bar>x\<bar>")
  then have d: "0 < d" by (rule quotient_of_denom_pos)
  from q have x: "\<bar>x\<bar> = of_int n / of_int d" by (rule quotient_of_div)
  from assms have "0 < \<bar>x\<bar>" by simp
  with x d have n: "0 < n" by (simp add: zero_less_divide_iff)
  define k where "k = bitlen n - bitlen d"
  have e: "ilog2 x = (if 2 powi k \<le> \<bar>x\<bar> then k else k - 1)"
    by (simp add: ilog2_def q k_def)
  have dpos: "(0::rat) < of_int d" using d by simp
  have "2 powi (k - 1) * of_int d \<le> (2::rat) powi (k - 1) * 2 powi (bitlen d)"
    using bitlen_powi(2) [OF d] by (simp add: less_imp_le)
  also have "\<dots> = 2 powi (bitlen n - 1)"
    by (simp add: k_def power_int_add [symmetric])
  also have "\<dots> \<le> of_int n" by (rule bitlen_powi(1) [OF n])
  finally have lo: "2 powi (k - 1) \<le> \<bar>x\<bar>"
    using dpos by (simp add: x pos_le_divide_eq)
  have "of_int n < (2::rat) powi (bitlen n)" by (rule bitlen_powi(2) [OF n])
  also have "\<dots> = 2 powi (k + 1) * 2 powi (bitlen d - 1)"
    by (simp add: k_def power_int_add [symmetric])
  also have "\<dots> \<le> 2 powi (k + 1) * of_int d"
    using bitlen_powi(1) [OF d] by simp
  finally have hi: "\<bar>x\<bar> < 2 powi (k + 1)"
    using dpos by (simp add: x pos_divide_less_eq)
  show "2 powi (ilog2 x) \<le> \<bar>x\<bar>" using lo by (simp add: e)
  show "\<bar>x\<bar> < 2 powi (ilog2 x + 1)" using hi by (simp add: e not_le)
qed

lemma round_half_even_error: "\<bar>of_int (round_half_even x) - x\<bar> \<le> 1 / 2"
proof -
  have "of_int \<lfloor>x\<rfloor> \<le> x" "x < of_int \<lfloor>x\<rfloor> + 1" by linarith+
  then show ?thesis
    by (auto simp: round_half_even_def Let_def)
qed

text \<open>
  One rounding moves a value by at most the relative error \<open>2 powi (- 53)\<close>, or by half the
  spacing of the subnormal numbers.
\<close>

lemma round_binary64_error:
  "\<bar>round_binary64 x - x\<bar> \<le> \<bar>x\<bar> / 2 ^ 53 + 1 / 2 ^ 1075"
proof (cases "x = 0")
  case True
  then show ?thesis by (simp add: round_binary64_def)
next
  case False
  define e where "e = max (ilog2 x) (- 1022)"
  define u :: rat where "u = 2 powi (e - 52)"
  have u: "0 < u" by (simp add: u_def)
  have r: "round_binary64 x = of_int (round_half_even (x / u)) * u"
    using False by (simp add: round_binary64_def Let_def u_def e_def)
  have "\<bar>round_binary64 x - x\<bar> = \<bar>of_int (round_half_even (x / u)) - x / u\<bar> * u"
  proof -
    have "round_binary64 x - x = (of_int (round_half_even (x / u)) - x / u) * u"
      using u by (simp add: r algebra_simps)
    then show ?thesis using u by (simp add: abs_mult)
  qed
  also have "\<dots> \<le> 1 / 2 * u"
    using round_half_even_error [of "x / u"] u by (simp only: mult_right_mono less_imp_le)
  also have "\<dots> = 2 powi (e - 53)"
  proof -
    have "(2::rat) powi (e - 52) = 2 powi (e - 53) * 2"
      using power_int_add_1 [of "2::rat" "e - 53"] by simp
    then show ?thesis by (simp add: u_def)
  qed
  also have "\<dots> \<le> \<bar>x\<bar> / 2 ^ 53 + 1 / 2 ^ 1075"
  proof (cases "- 1022 \<le> ilog2 x")
    case True
    then have "e = ilog2 x" by (simp add: e_def)
    then have "(2::rat) powi (e - 53) = 2 powi (ilog2 x) / 2 ^ 53"
      by (simp add: power_int_diff)
    also have "\<dots> \<le> \<bar>x\<bar> / 2 ^ 53"
      using ilog2_bounds(1) [OF False] by (simp add: divide_right_mono)
    finally show ?thesis by simp
  next
    case False
    then have "e = - 1022" by (simp add: e_def)
    then have "(2::rat) powi (e - 53) = 1 / 2 ^ 1075"
      by (simp add: power_int_minus_divide)
    then show ?thesis by simp
  qed
  finally show ?thesis .
qed

text \<open>A quotient of at most 100 is far from overflow, so the division returns.\<close>

lemma py_truediv_percentage:
  assumes "0 \<le> a" and "0 < b" and "a \<le> 100 * b"
  shows "py_truediv a b = Inr (round_binary64 (of_int a / of_int b))"
proof -
  define x :: rat where "x = of_int a / of_int b"
  have b: "(0::rat) < of_int b" using assms(2) by simp
  have "(of_int a :: rat) \<le> of_int (100 * b)" using assms(3) by (simp only: of_int_le_iff)
  then have hi: "x \<le> 100" using b by (simp add: x_def pos_divide_le_eq)
  have lo: "0 \<le> x" using assms(1) b by (simp add: x_def)
  have "\<bar>round_binary64 x\<bar> \<le> \<bar>x\<bar> + \<bar>round_binary64 x - x\<bar>" by simp
  also have "\<dots> \<le> \<bar>x\<bar> + (\<bar>x\<bar> / 2 ^ 53 + 1 / 2 ^ 1075)"
    using round_binary64_error [of x] by simp
  also have "\<dots> \<le> 100 + (100 / 2 ^ 53 + 1 / 2 ^ 1075)"
    using lo hi by (simp add: divide_right_mono add_mono)
  also have "\<dots> < 2 ^ 7"
  proof -
    have "(1::rat) / 2 ^ 1075 \<le> 1" by (simp add: divide_le_eq_1)
    moreover have "(100::rat) / 2 ^ 53 \<le> 1" by simp
    ultimately show ?thesis by simp
  qed
  also have "(2::rat) ^ 7 \<le> 2 ^ 1024" by (rule power_increasing) simp_all
  finally have "\<not> 2 ^ 1024 \<le> \<bar>round_binary64 x\<bar>" by simp
  then show ?thesis using assms(2) by (simp add: py_truediv_def Let_def x_def)
qed

lemma py_truediv_count:
  assumes "c \<le> tot" and "tot \<noteq> 0"
  shows "py_truediv (100 * int c) (int tot) =
           Inr (round_binary64 (of_int (100 * int c) / of_int (int tot)))"
  using assms by (intro py_truediv_percentage) simp_all

section \<open>The Statistics Calculator computes what is specified\<close>

lemma bind_err_Inr: "bind_err (Inr v) f = f v"
  by (simp add: bind_err_def)

lemma dict_comp_total:
  assumes "\<And>k. k \<in> set ks \<Longrightarrow> f k = Inr (g k)"
  shows "dict_comp f ks m = Inr (foldl (\<lambda>m k. m(k \<mapsto> g k)) m ks)"
  using assms by (induction ks arbitrary: m) simp_all

lemma set_ACGT: "set ACGT = {65, 67, 71, 84}"
  by (simp add: ACGT_def str_def)

lemma counts_dict:
  "dict_comp (\<lambda>base. Inr (int (count_list d base))) ACGT Map.empty =
     Inr [65 \<mapsto> int (count_list d 65), 67 \<mapsto> int (count_list d 67),
          71 \<mapsto> int (count_list d 71), 84 \<mapsto> int (count_list d 84)]"
  by (simp add: ACGT_def str_def)

lemma percentage_step:
  assumes "c \<le> tot" and "k = int c"
  shows "(if int tot \<noteq> 0
          then bind_err (py_truediv (100 * k) (int tot)) (\<lambda>q. Inr (PyFloat q))
          else Inr (PyInt 0)) = Inr (percentage c tot)"
proof (cases "tot = 0")
  case True
  then show ?thesis by (simp add: percentage_def)
next
  case False
  then show ?thesis
    unfolding assms(2) py_truediv_count [OF assms(1) False]
    by (simp add: percentage_def bind_err_def)
qed

lemma percentages_dict:
  fixes d :: pystr
  assumes "counts = [65 \<mapsto> int (count_list d 65), 67 \<mapsto> int (count_list d 67),
          71 \<mapsto> int (count_list d 71), 84 \<mapsto> int (count_list d 84)]"
  shows "dict_comp (\<lambda>base.
             if int (length d) \<noteq> 0
             then bind_err (getitem counts base) (\<lambda>c.
                  bind_err (py_truediv (100 * c) (int (length d))) (\<lambda>q. Inr (PyFloat q)))
             else Inr (PyInt 0)) ACGT Map.empty =
     Inr [65 \<mapsto> percentage (count_list d 65) (length d),
          67 \<mapsto> percentage (count_list d 67) (length d),
          71 \<mapsto> percentage (count_list d 71) (length d),
          84 \<mapsto> percentage (count_list d 84) (length d)]"
    (is "dict_comp ?f ACGT Map.empty = Inr ?p")
proof -
  have "dict_comp ?f ACGT Map.empty =
          Inr (foldl (\<lambda>m k. m(k \<mapsto> percentage (count_list d k) (length d))) Map.empty ACGT)"
  proof (rule dict_comp_total)
    fix base
    assume "base \<in> set ACGT"
    then have "getitem counts base = Inr (int (count_list d base))"
      by (auto simp: assms getitem_def set_ACGT)
    then have "bind_err (getitem counts base) (\<lambda>c.
                  bind_err (py_truediv (100 * c) (int (length d))) (\<lambda>q. Inr (PyFloat q))) =
               bind_err (py_truediv (100 * int (count_list d base)) (int (length d)))
                  (\<lambda>q. Inr (PyFloat q))"
      by (simp only: bind_err_Inr)
    then show "?f base = Inr (percentage (count_list d base) (length d))"
      using percentage_step [OF count_le_length refl, of d base] by presburger
  qed
  also have "foldl (\<lambda>m k. m(k \<mapsto> percentage (count_list d k) (length d))) Map.empty ACGT = ?p"
    by (simp add: ACGT_def str_def)
  finally show ?thesis .
qed

lemma count_sum_ACGT:
  fixes d :: pystr
  assumes "set d \<subseteq> {65, 67, 71, 84}"
  shows "count_list d 65 + count_list d 67 + count_list d 71 + count_list d 84 = length d"
proof -
  have "sum (count_list d) {65, 67, 71, 84} = length d"
    using assms by (intro sum_count_set) simp_all
  then show ?thesis by simp
qed

lemma alphabet_only_filter: "filter (\<lambda>base. base \<in> set ACGT) s = alphabet_only s"
  by (simp add: alphabet_only_def set_ACGT)

lemma set_alphabet_only: "set (alphabet_only s) \<subseteq> {65, 67, 71, 84}"
  by (auto simp: alphabet_only_def)

lemma calculate_stats_refines: "calculate_stats seq = Inr (calculate_stats_spec seq)"
proof -
  define d where "d = alphabet_only seq"
  let ?counts = "[65 \<mapsto> int (count_list d 65), 67 \<mapsto> int (count_list d 67),
          71 \<mapsto> int (count_list d 71), (84::nat) \<mapsto> int (count_list d 84)]"
  have "set d \<subseteq> {65, 67, 71, 84}" unfolding d_def by (rule set_alphabet_only)
  then have cg: "count_list d 67 + count_list d 71 \<le> length d"
    using count_sum_ACGT [of d] by simp
  have c: "getitem ?counts (of_char CHR ''C'') = Inr (int (count_list d 67))"
    and g: "getitem ?counts (of_char CHR ''G'') = Inr (int (count_list d 71))"
    by (simp_all add: getitem_def)
  have p: "(if int (length d) \<noteq> 0
          then bind_err (py_truediv (100 * (int (count_list d 67) + int (count_list d 71)))
                  (int (length d))) (\<lambda>q. Inr (PyFloat q))
          else Inr (PyInt 0)) = Inr (percentage (count_list d 67 + count_list d 71) (length d))"
    by (rule percentage_step [OF cg]) simp
  have "calculate_stats seq =
     Inr ([65 \<mapsto> percentage (count_list d 65) (length d),
           67 \<mapsto> percentage (count_list d 67) (length d),
           71 \<mapsto> percentage (count_list d 71) (length d),
           84 \<mapsto> percentage (count_list d 84) (length d)],
          percentage (count_list d 67 + count_list d 71) (length d))"
    unfolding calculate_stats_def Let_def alphabet_only_filter d_def [symmetric] counts_dict
      bind_err_Inr percentages_dict [OF refl] c g p ..
  then show ?thesis
    by (simp add: calculate_stats_spec_def Let_def d_def)
qed




lemma percentage_error:
  assumes "tot \<noteq> 0"
  shows "\<bar>num_val (percentage c tot) - of_nat (100 * c) / of_nat tot\<bar>
           \<le> (of_nat (100 * c) / of_nat tot) / 2 ^ 53 + 1 / 2 ^ 1075"
  using assms round_binary64_error [of "of_nat (100 * c) / of_nat tot"]
  by (simp add: percentage_def)

lemma percentages_sum_error:
  fixes d :: pystr
  assumes "d \<noteq> []" and "set d \<subseteq> {65, 67, 71, 84}"
  shows "\<bar>num_val (percentage (count_list d 65) (length d)) +
          num_val (percentage (count_list d 67) (length d)) +
          num_val (percentage (count_list d 71) (length d)) +
          num_val (percentage (count_list d 84) (length d)) - 100\<bar>
         \<le> 100 / 2 ^ 53 + 4 / 2 ^ 1075"
proof -
  define x where "x b = (of_nat (100 * count_list d b) :: rat) / of_nat (length d)" for b
  define y where "y b = num_val (percentage (count_list d b) (length d))" for b
  have n: "length d \<noteq> 0" using assms(1) by simp
  have e: "\<bar>y b - x b\<bar> \<le> x b / 2 ^ 53 + 1 / 2 ^ 1075" for b
    unfolding x_def y_def by (rule percentage_error [OF n])
  have s: "x 65 + x 67 + x 71 + x 84 = 100"
  proof -
    have "x 65 + x 67 + x 71 + x 84 =
          100 * (of_nat (count_list d 65 + count_list d 67 + count_list d 71 + count_list d 84)
                 / of_nat (length d))"
      by (simp add: x_def add_divide_distrib distrib_left)
    also have "\<dots> = 100"
      unfolding count_sum_ACGT [OF assms(2)] using n by simp
    finally show ?thesis .
  qed
  have "\<bar>y 65 + y 67 + y 71 + y 84 - 100\<bar> =
        \<bar>(y 65 - x 65) + (y 67 - x 67) + (y 71 - x 71) + (y 84 - x 84)\<bar>"
    using s by (simp add: algebra_simps)
  also have "\<dots> \<le> \<bar>y 65 - x 65\<bar> + \<bar>y 67 - x 67\<bar> + \<bar>y 71 - x 71\<bar> + \<bar>y 84 - x 84\<bar>"
    by linarith
  also have "\<dots> \<le> (x 65 / 2 ^ 53 + 1 / 2 ^ 1075) + (x 67 / 2 ^ 53 + 1 / 2 ^ 1075) +
                   (x 71 / 2 ^ 53 + 1 / 2 ^ 1075) + (x 84 / 2 ^ 53 + 1 / 2 ^ 1075)"
    by (intro add_mono e)
  also have "\<dots> = (x 65 + x 67 + x 71 + x 84) / 2 ^ 53 + 4 / 2 ^ 1075"
    by (simp add: add_divide_distrib)
  also have "\<dots> = 100 / 2 ^ 53 + 4 / 2 ^ 1075" by (simp only: s)
  finally show ?thesis by (simp only: y_def)
qed

lemma tolerance: "(100::rat) / 2 ^ 53 + 4 / 2 ^ 1075 \<le> 1 / 10 ^ 6"
proof -
  have "(4::rat) / 2 ^ 1075 \<le> 4 / 2 ^ 53"
    by (intro divide_left_mono power_increasing) simp_all
  then have "(100::rat) / 2 ^ 53 + 4 / 2 ^ 1075 \<le> 104 / 2 ^ 53" by simp
  also have "\<dots> \<le> 1 / 10 ^ 6" by simp
  finally show ?thesis .
qed

section \<open>The random source\<close>

lemma draw_choices_ok:
  assumes "population \<noteq> []"
  shows "\<exists>xs. draw_choices population k g = Inr (xs, sdrop k g) \<and> length xs = k \<and>
           set xs \<subseteq> set population"
proof (induction k arbitrary: g)
  case 0
  show ?case by simp
next
  case (Suc k)
  from Suc [of "stl g"] obtain xs
    where xs: "draw_choices population k (stl g) = Inr (xs, sdrop k (stl g))"
      "length xs = k" "set xs \<subseteq> set population"
    by blast
  from assms have "shd g mod length population < length population" by simp
  then have "population ! (shd g mod length population) \<in> set population" by (rule nth_mem)
  with xs assms show ?case by (simp add: bind_err_def)
qed

lemma random_choices_ok:
  assumes "population \<noteq> []" and "- (2 ^ 63) \<le> k" and "k < 2 ^ 63"
  shows "\<exists>xs. random_choices population k g = Inr (xs, sdrop (nat k) g) \<and>
           length xs = nat k \<and> set xs \<subseteq> set population"
  using draw_choices_ok [OF assms(1), of "nat k" g] assms(2,3)
  by (simp add: random_choices_def)

lemma randint_range:
  assumes "a \<le> b"
  shows "\<exists>r. randint a b g = Inr (r, stl g) \<and> a \<le> r \<and> r \<le> b"
proof -
  define n where "n = nat (b - a + 1)"
  have n: "0 < n" "int n = b - a + 1" using assms by (simp_all add: n_def)
  have "shd g mod n < n" using n(1) by simp
  then have "int (shd g mod n) < int n" by (simp only: of_nat_less_iff)
  then have "a + int (shd g mod n) \<le> b" using n(2) by linarith
  moreover have "a \<le> a + int (shd g mod n)" by simp
  ultimately show ?thesis
    using assms unfolding randint_def n_def by simp
qed

section \<open>Sequence Generator\<close>




section \<open>Name Embedder\<close>

lemma insert_name_offset:
  "\<exists>offset\<le>length seq.
     insert_name seq name g = Inr (take offset seq @ name @ drop offset seq, stl g)"
proof -
  from randint_range [of 0 "int (length seq)" g] obtain pos
    where pos: "randint 0 (int (length seq)) g = Inr (pos, stl g)"
      "0 \<le> pos" "pos \<le> int (length seq)"
    by auto
  define offset where "offset = nat pos"
  have b: "slice_bound seq pos = offset" using pos(2) by (simp add: slice_bound_def offset_def)
  have le: "offset \<le> length seq" using pos(2,3) by (simp add: offset_def)
  have "insert_name seq name g = Inr (take offset seq @ name @ drop offset seq, stl g)"
    by (simp add: insert_name_def pos(1) bind_err_def slice_to_def slice_from_def b)
  with le show ?thesis by blast
qed

text \<open>
  Claim C2. For every sequence and every name (the empty name included) and every state
  of the random source, \<open>insert_name\<close> returns a string \<open>r\<close> for which there is an offset
  between 0 and the length of the sequence, both included, such that \<open>r\<close> is the first
  \<open>offset\<close> characters of the sequence, then the name, then the rest of the sequence.
  The length of \<open>r\<close> is the sum of the two lengths, cutting the name's length out of \<open>r\<close>
  at the offset gives the sequence back, and for the empty name \<open>r\<close> is the sequence.
\<close>

theorem insert_name_splice:
  "\<exists>offset r. offset \<le> length seq \<and> insert_name seq name g = Inr (r, stl g) \<and>
     r = take offset seq @ name @ drop offset seq \<and>
     length r = length seq + length name \<and>
     take offset r @ drop (offset + length name) r = seq \<and>
     (name = [] \<longrightarrow> r = seq)"
proof -
  from insert_name_offset [of seq name g] obtain offset
    where "offset \<le> length seq"
      and "insert_name seq name g = Inr (take offset seq @ name @ drop offset seq, stl g)"
    by blast
  then show ?thesis
    by (intro exI [of _ offset]) (simp add: min_absorb2)
qed

theorem insert_name_splice_witness:
  "([] :: pystr) = [] \<and>
   insert_name (str ''ACGT'') [] (6 ## sconst 0) = Inr (str ''ACGT'', sconst 0) \<and>
   insert_name (str ''ACGT'') (str ''bob'') (6 ## sconst 0) = Inr (str ''AbobCGT'', sconst 0)"
proof -
  from insert_name_splice [of "str ''ACGT''" "[]" "6 ## sconst 0"]
  have "insert_name (str ''ACGT'') [] (6 ## sconst 0) = Inr (str ''ACGT'', sconst 0)"
    by auto
  moreover
  have "insert_name (str ''ACGT'') (str ''bob'') (6 ## sconst 0) = Inr (str ''AbobCGT'', sconst 0)"
    by (simp add: insert_name_def randint_def bind_err_def slice_to_def slice_from_def
        slice_bound_def str_def)
  ultimately show ?thesis by simp
qed

section \<open>Statistics Calculator\<close>

text \<open>
  Claim C5. For every input string, \<open>calculate_stats\<close> returns what the specification
  describes: the input is filtered to its alphabet-only subset, \<open>tot\<close> is the length of
  the subset, each base gets \<^verbatim>\<open>100 * count / tot\<close> (0 if \<open>tot\<close> is zero) and the combined
  value is \<^verbatim>\<open>100 * (count(C) + count(G)) / tot\<close> (0 if \<open>tot\<close> is zero). On \<^verbatim>\<open>AACCGGTT\<close> it
  returns 25.0 for each of A, C, G, T and 50.0 for the combined value.
\<close>

theorem calculate_stats_refines_spec:
  "calculate_stats s = Inr (calculate_stats_spec s) \<and>
   calculate_stats (str ''AACCGGTT'') =
     Inr ([base_A \<mapsto> PyFloat 25, base_C \<mapsto> PyFloat 25, base_G \<mapsto> PyFloat 25,
           base_T \<mapsto> PyFloat 25],
          PyFloat 50)"
proof
  show "calculate_stats s = Inr (calculate_stats_spec s)" by (rule calculate_stats_refines)
  have a: "alphabet_only (str ''AACCGGTT'') = str ''AACCGGTT''"
    by (simp add: alphabet_only_def str_def)
  have r25: "round_binary64 25 = 25" by code_simp
  have r50: "round_binary64 50 = 50" by code_simp
  show "calculate_stats (str ''AACCGGTT'') =
     Inr ([base_A \<mapsto> PyFloat 25, base_C \<mapsto> PyFloat 25, base_G \<mapsto> PyFloat 25,
           base_T \<mapsto> PyFloat 25],
          PyFloat 50)"
    unfolding calculate_stats_refines calculate_stats_spec_def a Let_def
    by (simp add: str_def percentage_def r25 r50)
qed

text \<open>
  Claim C1. For every input string whose alphabet-only subset is not empty,
  \<open>calculate_stats\<close> returns, and the four percentages it returns for A, C, G and T,
  taken as the numbers the binary64 values denote, sum to 100 within \<open>1e-6\<close>.
\<close>

theorem calculate_stats_percentages_sum:
  assumes "alphabet_only s \<noteq> []"
  shows "\<exists>p cg a c g t. calculate_stats s = Inr (p, cg) \<and>
           p base_A = Some a \<and> p base_C = Some c \<and> p base_G = Some g \<and> p base_T = Some t \<and>
           \<bar>num_val a + num_val c + num_val g + num_val t - 100\<bar> \<le> 1 / 10 ^ 6"
proof -
  from percentages_sum_error [OF assms set_alphabet_only] tolerance
  show ?thesis
    by (simp add: calculate_stats_refines calculate_stats_spec_def Let_def)
qed

theorem calculate_stats_percentages_sum_witness:
  "alphabet_only (str ''xAyAzC'') \<noteq> [] \<and>
   (\<exists>p cg a c g t. calculate_stats (str ''xAyAzC'') = Inr (p, cg) \<and>
      p base_A = Some a \<and> p base_C = Some c \<and> p base_G = Some g \<and> p base_T = Some t \<and>
      \<bar>num_val a + num_val c + num_val g + num_val t - 100\<bar> \<le> 1 / 10 ^ 6)"
proof -
  have h: "alphabet_only (str ''xAyAzC'') \<noteq> []" by (simp add: alphabet_only_def str_def)
  from h calculate_stats_percentages_sum [OF h] show ?thesis by (rule conjI)
qed

text \<open>
  Claim C6. For every input string without any of the characters A, C, G, T (the empty
  string included), \<open>calculate_stats\<close> returns 0 for each of the four bases and 0 for the
  combined value. It returns: the division, which would raise \<^verbatim>\<open>ZeroDivisionError\<close> on
  the zero total, is not reached.
\<close>

theorem calculate_stats_empty_alphabet:
  assumes "\<forall>c\<in>set s. c \<notin> {base_A, base_C, base_G, base_T}"
  shows "calculate_stats s =
     Inr ([base_A \<mapsto> PyInt 0, base_C \<mapsto> PyInt 0, base_G \<mapsto> PyInt 0, base_T \<mapsto> PyInt 0],
          PyInt 0)"
proof -
  from assms have "alphabet_only s = []" by (auto simp: alphabet_only_def filter_empty_conv)
  then show ?thesis
    by (simp add: calculate_stats_refines calculate_stats_spec_def percentage_def)
qed

theorem calculate_stats_empty_alphabet_witness:
  "calculate_stats (str ''xyz'') =
     Inr ([base_A \<mapsto> PyInt 0, base_C \<mapsto> PyInt 0, base_G \<mapsto> PyInt 0, base_T \<mapsto> PyInt 0],
          PyInt 0) \<and>
   calculate_stats [] =
     Inr ([base_A \<mapsto> PyInt 0, base_C \<mapsto> PyInt 0, base_G \<mapsto> PyInt 0, base_T \<mapsto> PyInt 0],
          PyInt 0)"
proof -
  have h: "\<forall>c\<in>set (str ''xyz''). c \<notin> {base_A, base_C, base_G, base_T}"
    by (simp add: str_def)
  have e: "\<forall>c\<in>set ([] :: pystr). c \<notin> {base_A, base_C, base_G, base_T}" by simp
  from calculate_stats_empty_alphabet [OF h] calculate_stats_empty_alphabet [OF e]
  show ?thesis by (rule conjI)
qed


section \<open>Record Writer\<close>



text \<open>
  Every outcome of \<open>save_fasta\<close>: the path is refused and nothing changes; or the header
  is rejected by the encoding and the file is left empty; or the payload is rejected and
  the file is left with the header alone; or the whole record is written.
\<close>

lemma save_fasta_outcomes:
  "save_fasta file_name seq_id description seq_with_name w =
     (let header = str ''>'' @ seq_id @ str '' '' @ description @ [newline]
      in if 0 \<in> set file_name then Inl (ValueError, w)
         else case open_error w file_name of
           Some e \<Rightarrow> Inl (e, w)
         | None \<Rightarrow>
             if \<not> encodable w header
             then Inl (UnicodeEncodeError, w\<lparr>files := (files w)(file_name \<mapsto> [])\<rparr>)
             else if \<not> encodable w (seq_with_name @ [newline])
             then Inl (UnicodeEncodeError, w\<lparr>files := (files w)(file_name \<mapsto> header)\<rparr>)
             else Inr (w\<lparr>files := (files w)(file_name \<mapsto>
                         header @ seq_with_name @ [newline])\<rparr>))"
  by (simp add: save_fasta_def open_w_def file_write_def bind_err_def encodable_def Let_def
      split: option.splits)

lemma save_fasta_content:
  assumes "0 \<notin> set file_name" and "open_error w file_name = None"
    and "encodable w (str ''>'' @ seq_id @ str '' '' @ description @ [newline])"
    and "encodable w (seq_with_name @ [newline])"
  shows "save_fasta file_name seq_id description seq_with_name w =
           Inr (w\<lparr>files := (files w)(file_name \<mapsto>
                  str ''>'' @ seq_id @ str '' '' @ description @ [newline] @
                  seq_with_name @ [newline])\<rparr>)"
  using assms by (simp add: save_fasta_outcomes Let_def)







section \<open>Interactive Driver\<close>

subsection \<open>The validation loop\<close>

lemma read_length_eof:
  assumes "shd (stdin w) = None"
  shows "read_length parse w = Inl (EOFError, consume prompt_length w)"
  using assms by (simp add: read_length_def py_input_def bind_err_def)

lemma read_length_line:
  assumes "shd (stdin w) = Some line"
  shows "read_length parse w =
           (case parse line of
              None \<Rightarrow> Inl (ValueError, consume prompt_length w)
            | Some n \<Rightarrow> Inr (n, consume prompt_length w))"
  using assms
  by (simp add: read_length_def py_input_def py_int_def raise_in_def bind_err_def
      split: option.splits)

lemma stdin_reprompt: "stdin (reprompt parse w) = stl (stdin w)"
  by (simp add: reprompt_def consume_def py_print_def split: option.splits)

lemma stdin_reprompt_funpow: "stdin ((reprompt parse ^^ k) w) = sdrop k (stdin w)"
  by (induction k arbitrary: w) (simp_all add: stdin_reprompt funpow_swap1)

lemma get_valid_length_invalid:
  assumes "invalid_line parse (shd (stdin w))"
  shows "get_valid_length parse w = get_valid_length parse (reprompt parse w)"
proof -
  from assms obtain line where l: "shd (stdin w) = Some line" "\<not> valid_length parse line"
    by (auto simp: invalid_line_def split: option.splits)
  show ?thesis
    using l(2)
    by (subst get_valid_length.simps)
      (auto simp: read_length_line [OF l(1)] reprompt_def l(1) valid_length_def
        is_ValueError_def split: option.splits)
qed

lemma get_valid_length_valid:
  assumes "shd (stdin w) = Some line" and "parse line = Some n" and "1 \<le> n"
  shows "get_valid_length parse w = Some (Inr (n, consume prompt_length w))"
  using assms(2,3)
  by (subst get_valid_length.simps) (simp add: read_length_line [OF assms(1)])

lemma get_valid_length_eof:
  assumes "shd (stdin w) = None"
  shows "get_valid_length parse w = Some (Inl (EOFError, consume prompt_length w))"
  by (subst get_valid_length.simps) (simp add: read_length_eof [OF assms] is_ValueError_def)

lemma get_valid_length_rounds:
  assumes "\<forall>i<k. invalid_line parse (stdin w !! i)"
  shows "get_valid_length parse w = get_valid_length parse ((reprompt parse ^^ k) w)"
  using assms
proof (induction k arbitrary: w)
  case 0
  show ?case by simp
next
  case (Suc k)
  from Suc.prems have "invalid_line parse (shd (stdin w))" by force
  then have "get_valid_length parse w = get_valid_length parse (reprompt parse w)"
    by (rule get_valid_length_invalid)
  also have "\<dots> = get_valid_length parse ((reprompt parse ^^ k) (reprompt parse w))"
  proof (rule Suc.IH)
    show "\<forall>i<k. invalid_line parse (stdin (reprompt parse w) !! i)"
      using Suc.prems by (auto simp: stdin_reprompt)
  qed
  finally show ?case by (simp add: funpow_swap1)
qed

lemma get_valid_length_returns:
  assumes "\<forall>i<k. invalid_line parse (stdin w !! i)"
    and "stdin w !! k = Some line" and "parse line = Some n" and "1 \<le> n"
  shows "get_valid_length parse w =
           Some (Inr (n, consume prompt_length ((reprompt parse ^^ k) w)))"
proof -
  have "shd (stdin ((reprompt parse ^^ k) w)) = Some line"
    using assms(2) by (simp add: stdin_reprompt_funpow)
  then have "get_valid_length parse ((reprompt parse ^^ k) w) =
      Some (Inr (n, consume prompt_length ((reprompt parse ^^ k) w)))"
    using assms(3,4) by (rule get_valid_length_valid)
  with get_valid_length_rounds [OF assms(1)] show ?thesis by simp
qed

lemma get_valid_length_raises:
  assumes "\<forall>i<k. invalid_line parse (stdin w !! i)" and "stdin w !! k = None"
  shows "get_valid_length parse w =
           Some (Inl (EOFError, consume prompt_length ((reprompt parse ^^ k) w)))"
proof -
  have "shd (stdin ((reprompt parse ^^ k) w)) = None"
    using assms(2) by (simp add: stdin_reprompt_funpow)
  from get_valid_length_eof [OF this] get_valid_length_rounds [OF assms(1)]
  show ?thesis by simp
qed

text \<open>
  The loop ends only if the console delivers something other than an invalid line: by
  fixpoint induction.
\<close>

lemma get_valid_length_Some_ends:
  assumes "get_valid_length parse w = Some r"
  shows "\<exists>k. \<not> invalid_line parse (stdin w !! k)"
proof (rule get_valid_length.raw_induct
    [where P = "\<lambda>parse w r. \<exists>k. \<not> invalid_line parse (stdin w !! k)", OF _ assms])
  fix f parse w r
  assume IH: "\<And>p v y. f p v = Some y \<Longrightarrow> \<exists>k. \<not> invalid_line p (stdin v !! k)"
    and body: "(case read_length parse w of
        Inl (e, w1) \<Rightarrow>
          if is_ValueError e then f parse (py_print msg_not_integer w1)
          else Some (Inl (e, w1))
      | Inr (len, w1) \<Rightarrow>
          if len < 1 then f parse (py_print msg_not_positive w1)
          else Some (Inr (len, w1))) = Some r"
  show "\<exists>k. \<not> invalid_line parse (stdin w !! k)"
  proof (cases "invalid_line parse (shd (stdin w))")
    case False
    then have "\<not> invalid_line parse (stdin w !! 0)" by simp
    then show ?thesis ..
  next
    case True
    then obtain line where l: "shd (stdin w) = Some line" "\<not> valid_length parse line"
      by (auto simp: invalid_line_def split: option.splits)
    with body have "f parse (reprompt parse w) = Some r"
      by (auto simp: read_length_line [OF l(1)] reprompt_def valid_length_def
          is_ValueError_def split: option.splits if_splits)
    from IH [OF this] obtain k where "\<not> invalid_line parse (stdin (reprompt parse w) !! k)" ..
    then have "\<not> invalid_line parse (stdin w !! Suc k)" by (simp add: stdin_reprompt)
    then show ?thesis ..
  qed
qed

lemma first_end:
  assumes "\<not> invalid_line parse (stdin w !! k)"
  obtains j where "\<forall>i<j. invalid_line parse (stdin w !! i)"
    and "stdin w !! j = None \<or>
         (\<exists>line n. stdin w !! j = Some line \<and> parse line = Some n \<and> 1 \<le> n)"
proof -
  define j where "j = (LEAST j. \<not> invalid_line parse (stdin w !! j))"
  have v: "\<not> invalid_line parse (stdin w !! j)"
    unfolding j_def using assms by (rule LeastI)
  have m: "\<forall>i<j. invalid_line parse (stdin w !! i)"
    unfolding j_def using not_less_Least by blast
  from v have "stdin w !! j = None \<or>
         (\<exists>line n. stdin w !! j = Some line \<and> parse line = Some n \<and> 1 \<le> n)"
    by (auto simp: invalid_line_def valid_length_def split: option.splits)
  with m show ?thesis using that by blast
qed




subsection \<open>The identifier\<close>

lemma strip_empty_iff: "strip s = [] \<longleftrightarrow> (\<forall>c\<in>set s. isspace c)"
proof -
  have "strip s = [] \<longleftrightarrow> (\<forall>c\<in>set (dropWhile isspace s). isspace c)"
    by (simp add: strip_def dropWhile_eq_Nil_conv)
  also have "\<dots> \<longleftrightarrow> dropWhile isspace s = []"
  proof
    assume a: "\<forall>c\<in>set (dropWhile isspace s). isspace c"
    show "dropWhile isspace s = []"
    proof (rule ccontr)
      assume n: "dropWhile isspace s \<noteq> []"
      then have "\<not> isspace (hd (dropWhile isspace s))" by (rule hd_dropWhile)
      moreover from n have "hd (dropWhile isspace s) \<in> set (dropWhile isspace s)" by simp
      ultimately show False using a by blast
    qed
  next
    assume "dropWhile isspace s = []"
    then show "\<forall>c\<in>set (dropWhile isspace s). isspace c" by (simp only: list.set ball_empty)
  qed
  also have "\<dots> \<longleftrightarrow> (\<forall>c\<in>set s. isspace c)"
    by (simp add: dropWhile_eq_Nil_conv)
  finally show ?thesis .
qed

lemma id_alphabet_chars:
  "\<forall>c\<in>set id_alphabet. (97 \<le> c \<and> c \<le> 122) \<or> (48 \<le> c \<and> c \<le> 57)"
  by (simp add: id_alphabet_def str_def)

text \<open>At end-of-file the identifier prompt raises, as every prompt does.\<close>

lemma main_seq_id_eof:
  assumes "shd (stdin w) = None"
  shows "main_seq_id w = Inl (EOFError, consume prompt_seq_id w)"
  using assms by (simp add: main_seq_id_def py_input_def bind_err_def)

text \<open>
  Claim C9. If the line supplied at the identifier prompt is empty or consists of
  whitespace only, the identifier is the one \<open>generate_random_id\<close> returns: it has exactly
  8 characters, each a lowercase letter (code points 97 to 122) or a digit (48 to 57),
  and it is reported on the console. Otherwise the identifier is the supplied line,
  unchanged, and nothing is reported.
\<close>

theorem main_seq_id_substitutes:
  assumes "shd (stdin w) = Some line"
  shows
  "((\<forall>c\<in>set line. isspace c) \<longrightarrow>
      (\<exists>rid g'. generate_random_id 8 (rng_state w) = Inr (rid, g') \<and>
         length rid = 8 \<and>
         (\<forall>c\<in>set rid. (97 \<le> c \<and> c \<le> 122) \<or> (48 \<le> c \<and> c \<le> 57)) \<and>
         main_seq_id w = Inr (rid, w\<lparr>stdin := stl (stdin w),
             stdout := stdout w @ prompt_seq_id @ msg_generated_id @ rid @ [newline],
             rng_state := g'\<rparr>))) \<and>
   (\<not> (\<forall>c\<in>set line. isspace c) \<longrightarrow>
      main_seq_id w = Inr (line, w\<lparr>stdin := stl (stdin w),
             stdout := stdout w @ prompt_seq_id\<rparr>))"
proof -
  have "id_alphabet \<noteq> []" by (simp add: id_alphabet_def str_def)
  from random_choices_ok [OF this, of 8 "rng_state w"] obtain rid
    where rid: "random_choices id_alphabet 8 (rng_state w) = Inr (rid, sdrop 8 (rng_state w))"
      "length rid = 8" "set rid \<subseteq> set id_alphabet"
    by auto
  from rid(3) id_alphabet_chars
  have chars: "\<forall>c\<in>set rid. (97 \<le> c \<and> c \<le> 122) \<or> (48 \<le> c \<and> c \<le> 57)" by blast
  show ?thesis
    using rid(1,2) chars assms
    by (simp add: main_seq_id_def py_input_def consume_def py_print_def generate_random_id_def
        raise_in_def strip_empty_iff bind_err_def)
qed

theorem main_seq_id_substitutes_witness:
  "main_seq_id (sample_world\<lparr>stdin := Some (str ''  '') ## sconst None,
       rng_state := siterate (\<lambda>n. n + 7) 3\<rparr>) =
     Inr (str ''dkry5cjq'', sample_world\<lparr>stdin := sconst None,
       stdout := prompt_seq_id @ msg_generated_id @ str ''dkry5cjq'' @ [newline],
       rng_state := siterate (\<lambda>n. n + 7) 59\<rparr>) \<and>
   main_seq_id (sample_world\<lparr>stdin := Some (str '' seq 1 '') ## sconst None\<rparr>) =
     Inr (str '' seq 1 '', sample_world\<lparr>stdin := sconst None, stdout := prompt_seq_id\<rparr>)"
proof -
  let ?w1 = "sample_world\<lparr>stdin := Some (str ''  '') ## sconst None,
       rng_state := siterate (\<lambda>n. n + 7) 3\<rparr>"
  let ?w2 = "sample_world\<lparr>stdin := Some (str '' seq 1 '') ## sconst None\<rparr>"
  have s1: "shd (stdin ?w1) = Some (str ''  '')" and s2: "shd (stdin ?w2) = Some (str '' seq 1 '')"
    by simp_all
  have h1: "\<forall>c\<in>set (str ''  ''). isspace c"
    by (simp add: str_def isspace_def)
  have h2: "\<not> (\<forall>c\<in>set (str '' seq 1 ''). isspace c)"
    by (simp add: str_def isspace_def)
  have g: "generate_random_id 8 (rng_state ?w1) =
      Inr (str ''dkry5cjq'', siterate (\<lambda>n. n + 7) 59)"
  proof -
    have e: "nat 8 = Suc (Suc (Suc (Suc (Suc (Suc (Suc (Suc 0)))))))" by simp
    show ?thesis
      unfolding generate_random_id_def random_choices_def e
      by (simp add: id_alphabet_def str_def bind_err_def sample_world_def)
  qed
  from main_seq_id_substitutes [OF s1] h1 g
  have "main_seq_id ?w1 = Inr (str ''dkry5cjq'', ?w1\<lparr>stdin := stl (stdin ?w1),
      stdout := stdout ?w1 @ prompt_seq_id @ msg_generated_id @ str ''dkry5cjq'' @ [newline],
      rng_state := siterate (\<lambda>n. n + 7) 59\<rparr>)"
    by auto
  moreover from main_seq_id_substitutes [OF s2] h2
  have "main_seq_id ?w2 = Inr (str '' seq 1 '', ?w2\<lparr>stdin := stl (stdin ?w2),
      stdout := stdout ?w2 @ prompt_seq_id\<rparr>)"
    by blast
  ultimately show ?thesis by (simp add: sample_world_def)
qed

section \<open>The whole run\<close>

lemma generate_dna_sequence_total:
  assumes "- (2 ^ 63) \<le> len" and "len < 2 ^ 63"
  shows "\<exists>dna_seq. generate_dna_sequence len g = Inr (dna_seq, sdrop (nat len) g) \<and>
           set dna_seq \<subseteq> set ACGT"
proof -
  have "ACGT \<noteq> []" by (simp add: ACGT_def str_def)
  from random_choices_ok [OF this assms, of g] show ?thesis
    by (auto simp: generate_dna_sequence_def)
qed

lemma print_percentages_files:
  assumes "print_percentages fmt p bases w = Inr w'"
  shows "files w' = files w"
  using assms
  by (induction bases arbitrary: w)
    (auto simp: bind_err_def raise_in_def py_print_def split: sum.splits)

lemma print_percentages_total:
  assumes "set bases \<subseteq> dom p"
  shows "\<exists>w'. print_percentages fmt p bases w = Inr w'"
  using assms
  by (induction bases arbitrary: w) (auto simp: bind_err_def raise_in_def getitem_def)

lemma list_comp_getitem_total:
  assumes "set ks \<subseteq> dom p"
  shows "\<exists>vs. list_comp (\<lambda>k. getitem p k) ks = Inr vs"
  using assms
  by (induction ks) (auto simp: bind_err_def getitem_def)

lemma plot_stats_total:
  assumes "set (str ''ACGT'') \<subseteq> dom p"
  shows "\<exists>w'. plot_stats p w = Inr w' \<and> files w' = files w"
proof -
  from list_comp_getitem_total [OF assms] obtain vs
    where "list_comp (\<lambda>k. getitem p k) (str ''ACGT'') = Inr vs" ..
  then show ?thesis by (simp add: plot_stats_def Let_def bind_err_def raise_in_def)
qed

lemma dom_calculate_stats_spec: "dom (fst (calculate_stats_spec s)) = set (str ''ACGT'')"
  by (auto simp: calculate_stats_spec_def Let_def str_def)

text \<open>
  Once the identifier is chosen, the console delivers a description and a name, the
  length fits the size type, the path can be opened and the encoding accepts the text,
  a run ends with the record at the path named by the identifier.
\<close>

lemma main_from_length_record:
  assumes "main_seq_id w = Inr (seq_id, w2)"
    and "shd (stdin w2) = Some description" and "shd (stl (stdin w2)) = Some name"
    and "- (2 ^ 63) \<le> len" and "len < 2 ^ 63"
    and "0 \<notin> set (seq_id @ str ''.fasta'')" and "open_error w2 (seq_id @ str ''.fasta'') = None"
    and "encodable w2 (str ''>'' @ seq_id @ str '' '' @ description @ [newline])"
    and "encodable w2 (ACGT @ name @ [newline])"
  shows "\<exists>w' payload. main_from_length fmt len w = Inr w' \<and>
           files w' (seq_id @ str ''.fasta'') =
             Some (str ''>'' @ seq_id @ str '' '' @ description @ [newline] @
                   payload @ [newline])"
proof -
  define w3 where "w3 = consume prompt_description w2"
  define w4 where "w4 = consume prompt_name w3"
  have i3: "py_input prompt_description w2 = Inr (description, w3)"
    using assms(2) by (simp add: py_input_def w3_def)
  have i4: "py_input prompt_name w3 = Inr (name, w4)"
    using assms(3) by (simp add: py_input_def w3_def w4_def consume_def)
  obtain dna_seq where d: "generate_dna_sequence len (rng_state w4) =
      Inr (dna_seq, sdrop (nat len) (rng_state w4))" and a: "set dna_seq \<subseteq> set ACGT"
    using generate_dna_sequence_total [OF assms(4,5)] by blast
  obtain offset where i: "insert_name dna_seq name (sdrop (nat len) (rng_state w4)) =
      Inr (take offset dna_seq @ name @ drop offset dna_seq, stl (sdrop (nat len) (rng_state w4)))"
    using insert_name_offset by blast
  define payload where "payload = take offset dna_seq @ name @ drop offset dna_seq"
  define w5 where "w5 = w4\<lparr>rng_state := stl (sdrop (nat len) (rng_state w4))\<rparr>"
  define file_name where "file_name = seq_id @ str ''.fasta''"
  have same: "open_error w5 = open_error w2" "unencodable w5 = unencodable w2"
    by (simp_all add: w5_def w4_def w3_def consume_def)
  have "set payload \<subseteq> set ACGT \<union> set name"
    using a set_take_subset [of offset dna_seq] set_drop_subset [of offset dna_seq]
    by (auto simp: payload_def)
  with assms(9) have ep: "encodable w5 (payload @ [newline])"
    by (auto simp: encodable_def same)
  have eh: "encodable w5 (str ''>'' @ seq_id @ str '' '' @ description @ [newline])"
    using assms(8) by (simp add: encodable_def same)
  define w6 where "w6 = w5\<lparr>files := (files w5)(file_name \<mapsto>
      str ''>'' @ seq_id @ str '' '' @ description @ [newline] @ payload @ [newline])\<rparr>"
  have s: "save_fasta file_name seq_id description payload w5 = Inr w6"
    unfolding w6_def
    using assms(6,7) eh ep by (intro save_fasta_content) (simp_all add: file_name_def same)
  define w8 where "w8 = py_print msg_statistics (py_print (msg_saved @ file_name) w6)"
  define p where "p = fst (calculate_stats_spec payload)"
  define cg where "cg = snd (calculate_stats_spec payload)"
  have c: "calculate_stats payload = Inr (p, cg)"
    by (simp add: calculate_stats_refines p_def cg_def)
  have dom: "set (str ''ACGT'') \<subseteq> dom p"
    by (simp add: p_def dom_calculate_stats_spec)
  obtain w9 where pr: "print_percentages fmt p (str ''ACGT'') w8 = Inr w9"
    using print_percentages_total [OF dom] by blast
  obtain w' where pl: "plot_stats p (py_print (str ''%CG: '' @ fmt cg) w9) = Inr w'"
    and f: "files w' = files (py_print (str ''%CG: '' @ fmt cg) w9)"
    using plot_stats_total [OF dom] by blast
  have "files w' = files w6"
    using f print_percentages_files [OF pr] by (simp add: py_print_def w8_def)
  then have content: "files w' file_name =
      Some (str ''>'' @ seq_id @ str '' '' @ description @ [newline] @ payload @ [newline])"
    by (simp add: w6_def)
  have "main_from_length fmt len w = Inr w'"
    unfolding main_from_length_def assms(1) bind_err_Inr
    using i3 i4 d i s c pr pl
    by (simp add: Let_def bind_err_def raise_in_def payload_def w5_def file_name_def w8_def)
  with content show ?thesis
    unfolding file_name_def by blast
qed

text \<open>
  A run goes on for ever exactly when the console delivers nothing but invalid lines at
  the length prompt.
\<close>

lemma main_never_returns_iff:
  "main parse fmt w = None \<longleftrightarrow> (\<forall>i. invalid_line parse (stdin w !! i))"
proof
  assume n: "main parse fmt w = None"
  show "\<forall>i. invalid_line parse (stdin w !! i)"
  proof (rule allI, rule ccontr)
    fix i
    assume "\<not> invalid_line parse (stdin w !! i)"
    then obtain j where j: "\<forall>i<j. invalid_line parse (stdin w !! i)"
      and c: "stdin w !! j = None \<or>
           (\<exists>line n. stdin w !! j = Some line \<and> parse line = Some n \<and> 1 \<le> n)"
      by (rule first_end)
    from c show False
    proof
      assume "stdin w !! j = None"
      from get_valid_length_raises [OF j this] n show False by (simp add: main_def)
    next
      assume "\<exists>line n. stdin w !! j = Some line \<and> parse line = Some n \<and> 1 \<le> n"
      then obtain line n where "stdin w !! j = Some line" "parse line = Some n" "1 \<le> n"
        by blast
      from get_valid_length_returns [OF j this] n show False by (simp add: main_def)
    qed
  qed
next
  assume "\<forall>i. invalid_line parse (stdin w !! i)"
  with get_valid_length_Some_ends [of parse w] have "get_valid_length parse w = None"
    by (cases "get_valid_length parse w") auto
  then show "main parse fmt w = None" by (simp add: main_def)
qed

end
